theory Spec2Isabelle
  imports Complex_Main "HOL-Library.Word"
begin

section \<open>Data model of main.go\<close>

text \<open>
  The program moves \<open>float64\<close> values around (coordinates in, tile centres out) but never
  computes with them: every floating-point operation happens inside the imported package
  \<open>github.com/paulmach/orb/maptile\<close>. The carrier of \<open>float64\<close> is therefore a type
  parameter \<open>'f\<close> of the model, and the two library functions that compute with it
  (\<open>maptile.At\<close> and \<open>maptile.Tile.Center\<close>) are parameters of the functions that call them.
\<close>

type_synonym uint32 = "32 word"

text \<open>\<open>type GeoPoint struct { Type string; Coordinates []float64 }\<close>\<close>

record 'f GeoPoint =
  Type :: string
  Coordinates :: "'f list"

text \<open>
  The library's \<open>maptile.Tile\<close>, a struct of \<open>X, Y uint32\<close> and \<open>Z maptile.Zoom\<close>
  (\<open>Zoom\<close> is a \<open>uint32\<close>); \<open>maptile.New(x, y, z)\<close> builds the struct from its three fields.
\<close>

record maptile_Tile =
  mX :: uint32
  mY :: uint32
  mZ :: uint32

definition maptile_New :: "uint32 \<Rightarrow> uint32 \<Rightarrow> uint32 \<Rightarrow> maptile_Tile" where
  "maptile_New x y z = \<lparr>mX = x, mY = y, mZ = z\<rparr>"

text \<open>
  \<open>type Tile struct { X, Y, Z uint32; Key string; orbmaptile *maptile.Tile }\<close>.
  The pointer is \<open>nil\<close> (\<open>None\<close>) or addresses a \<open>maptile.Tile\<close> that nothing writes to after
  it has been created, so the pointee is kept by value.
\<close>

record Tile =
  X :: uint32
  Y :: uint32
  Z :: uint32
  Key :: string
  orbmaptile :: "maptile_Tile option"

text \<open>\<open>type Record struct { ID primitive.ObjectID; Location GeoPoint; Levels []Tile }\<close>;
  an \<open>ObjectID\<close> is an array of twelve bytes.\<close>

record 'f Record =
  ID :: "8 word list"
  Location :: "'f GeoPoint"
  Levels :: "Tile list"

text \<open>\<open>type RawStats struct { ID string; Count int }\<close>, one group of the aggregation.\<close>

record RawStats =
  RawStats_ID :: string
  RawStats_Count :: int

datatype json_value = JInt int | JString string

text \<open>\<open>type GeoJSONFeatureItem struct { Type string; Properties map[string]interface{};
  Geometry GeoPoint }\<close>\<close>

record 'f GeoJSONFeatureItem =
  Feature_Type :: string
  Properties :: "string \<rightharpoonup> json_value"
  Geometry :: "'f GeoPoint"

text \<open>\<open>type GeoJSONFeatures struct { Type string; Features []GeoJSONFeatureItem }\<close>\<close>

record 'f GeoJSONFeatures =
  Features_Type :: string
  Features :: "'f GeoJSONFeatureItem list"

section \<open>Go runtime and standard library, as far as main.go uses them\<close>

text \<open>A run-time panic of an index expression: index and length of the slice.\<close>

datatype panic = IndexOutOfRange nat nat

definition index :: "'a list \<Rightarrow> nat \<Rightarrow> panic + 'a" where
  "index xs i = (if i < length xs then Inr (xs ! i) else Inl (IndexOutOfRange i (length xs)))"

text \<open>Decimal digits, as \<open>%v\<close> prints unsigned and signed integers.\<close>

definition digit_char :: "nat \<Rightarrow> char" where
  "digit_char d = ''0123456789'' ! d"

fun FormatUint :: "nat \<Rightarrow> string" where
  "FormatUint n = (if n < 10 then [digit_char n] else FormatUint (n div 10) @ [digit_char (n mod 10)])"

definition FormatInt :: "int \<Rightarrow> string" where
  "FormatInt i = (if i < 0 then CHR ''-'' # FormatUint (nat (- i)) else FormatUint (nat i))"

text \<open>\<open>strings.Split(s, "-")\<close> for a one-byte separator: the pieces between the
  separators, one more piece than there are separators.\<close>

fun Split :: "string \<Rightarrow> char \<Rightarrow> string list" where
  "Split [] sep = [[]]"
| "Split (c # s) sep =
     (if c = sep then [] # Split s sep
      else (c # hd (Split s sep)) # tl (Split s sep))"

text \<open>
  \<open>strconv.ParseUint(s, 10, 64)\<close>: a digit loop that stops with a syntax error (value 0) at
  the first byte that is not a decimal digit, and with a range error (value \<open>2^64 - 1\<close>) as
  soon as the value leaves \<open>uint64\<close>; the empty string is a syntax error.
\<close>

datatype NumError = ErrSyntax | ErrRange

definition is_digit :: "char \<Rightarrow> bool" where
  "is_digit c = ((of_char CHR ''0'' :: nat) \<le> of_char c \<and> (of_char c :: nat) \<le> of_char CHR ''9'')"

definition digit_val :: "char \<Rightarrow> nat" where
  "digit_val c = of_char c - of_char CHR ''0''"

definition maxVal :: nat where
  "maxVal = 2 ^ 64 - 1"

definition cutoff10 :: nat where
  "cutoff10 = maxVal div 10 + 1"

fun ParseUint_loop :: "nat \<Rightarrow> string \<Rightarrow> nat \<times> NumError option" where
  "ParseUint_loop n [] = (n, None)"
| "ParseUint_loop n (c # s) =
     (if \<not> is_digit c then (0, Some ErrSyntax)
      else if n \<ge> cutoff10 then (maxVal, Some ErrRange)
      else let n1 = n * 10 + digit_val c in
        if n1 > maxVal then (maxVal, Some ErrRange)
        else ParseUint_loop n1 s)"

definition ParseUint :: "string \<Rightarrow> nat \<times> NumError option" where
  "ParseUint s = (if s = [] then (0, Some ErrSyntax) else ParseUint_loop 0 s)"

text \<open>
  \<open>strconv.ParseInt(s, 10, 64)\<close>: an optional sign, then \<open>ParseUint\<close>. A syntax error gives
  0; a magnitude outside \<open>int64\<close> gives the nearest bound together with a range error.
\<close>

definition ParseInt :: "string \<Rightarrow> int \<times> NumError option" where
  "ParseInt s0 =
     (if s0 = [] then (0, Some ErrSyntax)
      else let neg = (hd s0 = CHR ''-'');
               s = (if hd s0 = CHR ''+'' \<or> hd s0 = CHR ''-'' then tl s0 else s0);
               (un, err) = ParseUint s
           in if err = Some ErrSyntax then (0, err)
              else if \<not> neg \<and> un \<ge> 2 ^ 63 then (2 ^ 63 - 1, Some ErrRange)
              else if neg \<and> un > 2 ^ 63 then (- (2 ^ 63), Some ErrRange)
              else (if neg then - int un else int un, None))"

section \<open>The program\<close>

text \<open>Zoom levels: \<open>const ( minZoom int = 0; maxZoom int = 13 )\<close>.\<close>

definition minZoom :: int where
  "minZoom = 0"

definition maxZoom :: int where
  "maxZoom = 13"

text \<open>
  \<open>func (t *Tile) Center() [2]float64\<close>. The receiver is a pointer, so the model returns the
  tile after the call together with the result. \<open>maptile_Center\<close> stands for the library's
  \<open>maptile.Tile.Center\<close>.
\<close>

definition Center :: "(maptile_Tile \<Rightarrow> 'f \<times> 'f) \<Rightarrow> Tile \<Rightarrow> Tile \<times> ('f \<times> 'f)" where
  "Center maptile_Center t =
     (case orbmaptile t of
        None \<Rightarrow>
          let tmp = maptile_New (X t) (Y t) (Z t)
          in (t\<lparr>orbmaptile := Some tmp\<rparr>, maptile_Center tmp)
      | Some m \<Rightarrow> (t, maptile_Center m))"

text \<open>The key of a tile, \<open>fmt.Sprintf("%v-%v-%v", x, y, z)\<close> with \<open>x, y uint32\<close> and \<open>z int\<close>.\<close>

definition Sprintf_key :: "uint32 \<Rightarrow> uint32 \<Rightarrow> int \<Rightarrow> string" where
  "Sprintf_key x y z = FormatUint (unat x) @ ''-'' @ FormatUint (unat y) @ ''-'' @ FormatInt z"

text \<open>
  The body of the loop of \<open>SetLevels\<close> after the two index expressions: the call of
  \<open>maptile.At\<close> (the parameter \<open>maptile_At\<close>) on the point \<open>(c0, c1)\<close> and the
  \<open>Tile\<close> literal that is appended.
\<close>

definition level_Tile :: "('f \<times> 'f \<Rightarrow> uint32 \<Rightarrow> maptile_Tile) \<Rightarrow> 'f \<Rightarrow> 'f \<Rightarrow> int \<Rightarrow> Tile" where
  "level_Tile maptile_At c0 c1 z =
     (let orbmaptile = maptile_At (c0, c1) (word_of_int z);
          x = mX orbmaptile;
          y = mY orbmaptile
      in \<lparr>X = x, Y = y, Z = word_of_int z, Key = Sprintf_key x y z, orbmaptile = Some orbmaptile\<rparr>)"

text \<open>
  \<open>for z := minZoom; z <= maxZoom; z++ { ... r.Levels = append(r.Levels, Tile{...}) }\<close>.
  Both \<open>r.Location.Coordinates[0]\<close> and \<open>[1]\<close> are read in every round, without a length
  check, so each round can panic.
\<close>

function SetLevels_loop ::
    "('f \<times> 'f \<Rightarrow> uint32 \<Rightarrow> maptile_Tile) \<Rightarrow> 'f Record \<Rightarrow> int \<Rightarrow> panic + 'f Record" where
  "SetLevels_loop maptile_At r z =
     (if z \<le> maxZoom then
        (case index (Coordinates (Location r)) 0 of
           Inl e \<Rightarrow> Inl e
         | Inr c0 \<Rightarrow>
            (case index (Coordinates (Location r)) 1 of
               Inl e \<Rightarrow> Inl e
             | Inr c1 \<Rightarrow>
                 SetLevels_loop maptile_At
                   (r\<lparr>Levels := Levels r @ [level_Tile maptile_At c0 c1 z]\<rparr>) (z + 1)))
      else Inr r)"
  by pat_completeness auto
termination
  by (relation "measure (\<lambda>(a, r, z). nat (maxZoom + 1 - z))") auto

text \<open>\<open>func (r *Record) SetLevels()\<close>: the record after the call, or the panic.\<close>

definition SetLevels ::
    "('f \<times> 'f \<Rightarrow> uint32 \<Rightarrow> maptile_Tile) \<Rightarrow> 'f Record \<Rightarrow> panic + 'f Record" where
  "SetLevels maptile_At r = SetLevels_loop maptile_At (r\<lparr>Levels := []\<rparr>) minZoom"

text \<open>
  The first lines of \<open>FromRawStatsToGeoJSONFeatureItem\<close>: split the key at \<open>-\<close>, take the
  first three parts and parse each with \<open>strconv.ParseInt\<close>, whose error result is
  assigned to the blank identifier.
\<close>

definition parse_key :: "string \<Rightarrow> panic + (int \<times> int \<times> int)" where
  "parse_key raw_ID =
     (let parts = Split raw_ID CHR ''-'' in
      case index parts 0 of
        Inl e \<Rightarrow> Inl e
      | Inr xStr \<Rightarrow>
         (case index parts 1 of
            Inl e \<Rightarrow> Inl e
          | Inr yStr \<Rightarrow>
             (case index parts 2 of
                Inl e \<Rightarrow> Inl e
              | Inr zStr \<Rightarrow>
                  let x = fst (ParseInt xStr);
                      y = fst (ParseInt yStr);
                      z = fst (ParseInt zStr)
                  in Inr (x, y, z))))"

text \<open>The tile the function builds from the parsed key:
  \<open>maptile.New(uint32(x), uint32(y), maptile.Zoom(z))\<close>.\<close>

definition key_Tile :: "string \<Rightarrow> panic + maptile_Tile" where
  "key_Tile raw_ID =
     (case parse_key raw_ID of
        Inl e \<Rightarrow> Inl e
      | Inr (x, y, z) \<Rightarrow> Inr (maptile_New (word_of_int x) (word_of_int y) (word_of_int z)))"

definition FromRawStatsToGeoJSONFeatureItem ::
    "(maptile_Tile \<Rightarrow> 'f \<times> 'f) \<Rightarrow> RawStats \<Rightarrow> panic + 'f GeoJSONFeatureItem" where
  "FromRawStatsToGeoJSONFeatureItem maptile_Center raw =
     (case key_Tile (RawStats_ID raw) of
        Inl e \<Rightarrow> Inl e
      | Inr obrMapTile \<Rightarrow>
          let center = maptile_Center obrMapTile;
              centerLng = fst center;
              centerLat = snd center
          in Inr \<lparr>Feature_Type = ''Feature'',
                  Properties = [''count'' \<mapsto> JInt (RawStats_Count raw),
                                ''tileKey'' \<mapsto> JString (RawStats_ID raw)],
                  Geometry = \<lparr>Type = ''Point'', Coordinates = [centerLng, centerLat]\<rparr>\<rparr>)"

subsection \<open>The aggregation pipeline of \<open>demo\<close>\<close>

text \<open>
  The four stages that \<open>demo\<close> hands to the store, over the stored records as a list.
  A \<open>Tile\<close> is stored under the field names \<open>x\<close>, \<open>y\<close>, \<open>z\<close>, \<open>key\<close>; the store compares
  numbers by value, so \<open>levels.z\<close> matches \<open>level\<close> when the unsigned value of \<open>Z\<close> is \<open>level\<close>.

  \<open>{"$match": {"levels.z": level}}\<close> on the array field: some element matches.
\<close>

definition match_levels :: "int \<Rightarrow> 'f Record list \<Rightarrow> 'f Record list" where
  "match_levels level docs = filter (\<lambda>r. \<exists>t \<in> set (Levels r). uint (Z t) = level) docs"

text \<open>\<open>{"$unwind": "$levels"}\<close>: one document for every element of the array.\<close>

definition unwind_levels :: "'f Record list \<Rightarrow> ('f Record \<times> Tile) list" where
  "unwind_levels docs = concat (map (\<lambda>r. map (\<lambda>t. (r, t)) (Levels r)) docs)"

text \<open>\<open>{"$match": {"levels.z": level}}\<close> after the unwinding: the one level matches.\<close>

definition match_level :: "int \<Rightarrow> ('f Record \<times> Tile) list \<Rightarrow> ('f Record \<times> Tile) list" where
  "match_level level docs = filter (\<lambda>(r, t). uint (Z t) = level) docs"

text \<open>\<open>{"$group": {"_id": "$levels.key", "count": {"$sum": 1}}}\<close>: one group for every
  distinct key, counting its documents. The store promises no order of the groups; the
  model lists them in the order of \<open>remdups\<close>.\<close>

definition group_by_key :: "('f Record \<times> Tile) list \<Rightarrow> RawStats list" where
  "group_by_key docs =
     (let keys = map (\<lambda>(r, t). Key t) docs
      in map (\<lambda>k. \<lparr>RawStats_ID = k, RawStats_Count = int (count_list keys k)\<rparr>) (remdups keys))"

definition Aggregate :: "'f Record list \<Rightarrow> int \<Rightarrow> RawStats list" where
  "Aggregate stored level =
     group_by_key (match_level level (unwind_levels (match_levels level stored)))"

text \<open>\<open>for index, item := range rawRes { res[index] = FromRawStatsToGeoJSONFeatureItem(item) }\<close>:
  a panic of one item ends the loop and the call.\<close>

fun demo_loop ::
    "(maptile_Tile \<Rightarrow> 'f \<times> 'f) \<Rightarrow> RawStats list \<Rightarrow> panic + 'f GeoJSONFeatureItem list" where
  "demo_loop maptile_Center [] = Inr []"
| "demo_loop maptile_Center (item # rawRes) =
     (case FromRawStatsToGeoJSONFeatureItem maptile_Center item of
        Inl e \<Rightarrow> Inl e
      | Inr f \<Rightarrow>
         (case demo_loop maptile_Center rawRes of
            Inl e \<Rightarrow> Inl e
          | Inr res \<Rightarrow> Inr (f # res)))"

text \<open>\<open>func demo(ctx, repo, level)\<close> up to the feature collection it prints, for a store
  that answers the query.\<close>

definition demo ::
    "(maptile_Tile \<Rightarrow> 'f \<times> 'f) \<Rightarrow> 'f Record list \<Rightarrow> int \<Rightarrow> panic + 'f GeoJSONFeatures" where
  "demo maptile_Center stored level =
     (case demo_loop maptile_Center (Aggregate stored level) of
        Inl e \<Rightarrow> Inl e
      | Inr res \<Rightarrow> Inr \<lparr>Features_Type = ''FeatureCollection'', Features = res\<rparr>)"

section \<open>Auxiliary notions of the proofs\<close>

text \<open>The number a string of decimal digits denotes, read after the digits of \<open>m\<close>.\<close>

definition digits_val :: "nat \<Rightarrow> string \<Rightarrow> nat" where
  "digits_val m s = foldl (\<lambda>a c. a * 10 + digit_val c) m s"

text \<open>The levels of a record at one zoom.\<close>

definition tiles_at :: "int \<Rightarrow> 'f Record \<Rightarrow> Tile list" where
  "tiles_at level r = filter (\<lambda>t. uint (Z t) = level) (Levels r)"

section \<open>Decimal formatting and parsing\<close>

lemma digit_char_cases:
  "d < 10 \<Longrightarrow> d = 0 \<or> d = 1 \<or> d = 2 \<or> d = 3 \<or> d = 4 \<or> d = 5 \<or> d = 6 \<or> d = 7 \<or> d = 8 \<or> d = (9::nat)"
  by arith

lemma is_digit_digit_char: "d < 10 \<Longrightarrow> is_digit (digit_char d)"
  using digit_char_cases [of d] by (auto simp: is_digit_def digit_char_def)

lemma digit_val_digit_char: "d < 10 \<Longrightarrow> digit_val (digit_char d) = d"
  using digit_char_cases [of d] by (auto simp: digit_val_def digit_char_def)

lemma is_digit_not_minus: "is_digit c \<Longrightarrow> c \<noteq> CHR ''-''"
  by (auto simp: is_digit_def)

lemma is_digit_not_plus: "is_digit c \<Longrightarrow> c \<noteq> CHR ''+''"
  by (auto simp: is_digit_def)

declare FormatUint.simps [simp del]

lemma FormatUint_digits: "c \<in> set (FormatUint n) \<Longrightarrow> is_digit c"
proof (induction n arbitrary: c rule: FormatUint.induct)
  case (1 n)
  show ?case
  proof (cases "n < 10")
    case True
    with "1.prems" show ?thesis
      by (subst (asm) FormatUint.simps) (simp add: is_digit_digit_char)
  next
    case False
    with "1.prems" have "c \<in> set (FormatUint (n div 10)) \<or> c = digit_char (n mod 10)"
      by (subst (asm) FormatUint.simps) auto
    then show ?thesis
      using "1.IH" [OF False] by (auto simp: is_digit_digit_char)
  qed
qed

lemma FormatUint_nonempty: "FormatUint n \<noteq> []"
  by (subst FormatUint.simps) simp

lemma digits_val_FormatUint: "digits_val 0 (FormatUint n) = n"
proof (induction n rule: FormatUint.induct)
  case (1 n)
  show ?case
  proof (cases "n < 10")
    case True
    then show ?thesis
      by (subst FormatUint.simps) (simp add: digits_val_def digit_val_digit_char)
  next
    case False
    have "digits_val 0 (FormatUint n) = digits_val 0 (FormatUint (n div 10)) * 10 + n mod 10"
      using False by (subst FormatUint.simps) (simp add: digits_val_def digit_val_digit_char)
    then show ?thesis using "1.IH" [OF False] by simp
  qed
qed

lemma digits_val_ge: "m \<le> digits_val m s"
proof (induction s arbitrary: m)
  case Nil
  then show ?case by (simp add: digits_val_def)
next
  case (Cons c s)
  have "m \<le> m * 10 + digit_val c" by simp
  also have "\<dots> \<le> digits_val (m * 10 + digit_val c) s" by (rule Cons.IH)
  finally show ?case by (simp add: digits_val_def)
qed

lemma ParseUint_loop_digits:
  "\<forall>c \<in> set s. is_digit c \<Longrightarrow> digits_val m s \<le> maxVal \<Longrightarrow>
   ParseUint_loop m s = (digits_val m s, None)"
proof (induction s arbitrary: m)
  case Nil
  then show ?case by (simp add: digits_val_def)
next
  case (Cons c s)
  let ?n1 = "m * 10 + digit_val c"
  have v: "digits_val m (c # s) = digits_val ?n1 s"
    by (simp add: digits_val_def)
  have n1: "?n1 \<le> maxVal"
    using digits_val_ge [of ?n1 s] Cons.prems(2) v by simp
  then have m: "\<not> cutoff10 \<le> m"
    by (simp add: cutoff10_def maxVal_def)
  have "ParseUint_loop m (c # s) = ParseUint_loop ?n1 s"
    using Cons.prems(1) n1 m by (simp add: Let_def)
  also have "\<dots> = (digits_val ?n1 s, None)"
    using Cons.prems v by (intro Cons.IH) simp_all
  finally show ?case using v by simp
qed

lemma ParseUint_FormatUint: "n \<le> maxVal \<Longrightarrow> ParseUint (FormatUint n) = (n, None)"
  using ParseUint_loop_digits [of "FormatUint n" 0]
  by (simp add: ParseUint_def FormatUint_nonempty FormatUint_digits digits_val_FormatUint)

lemma ParseInt_FormatUint: "n < 2 ^ 63 \<Longrightarrow> ParseInt (FormatUint n) = (int n, None)"
proof -
  assume n: "n < 2 ^ 63"
  have d: "is_digit (hd (FormatUint n))"
    using FormatUint_nonempty [of n] by (intro FormatUint_digits [of _ n]) simp
  have "hd (FormatUint n) \<noteq> CHR ''-''" "hd (FormatUint n) \<noteq> CHR ''+''"
    using d is_digit_not_minus is_digit_not_plus by blast+
  moreover have "ParseUint (FormatUint n) = (n, None)"
    using n by (intro ParseUint_FormatUint) (simp add: maxVal_def)
  ultimately show ?thesis
    using n by (simp add: ParseInt_def FormatUint_nonempty)
qed

lemma Split_no_sep: "sep \<notin> set s \<Longrightarrow> Split s sep = [s]"
  by (induction s) auto

lemma Split_append_sep: "sep \<notin> set s \<Longrightarrow> Split (s @ sep # s') sep = s # Split s' sep"
  by (induction s) auto

section \<open>The loop of \<open>SetLevels\<close>\<close>

declare SetLevels_loop.simps [simp del]

lemma index_in_range: "i < length xs \<Longrightarrow> index xs i = Inr (xs ! i)"
  by (simp add: index_def)

lemma index_out_of_range: "\<not> i < length xs \<Longrightarrow> index xs i = Inl (IndexOutOfRange i (length xs))"
  by (simp add: index_def)

lemma SetLevels_loop_closed:
  "2 \<le> length (Coordinates (Location r)) \<Longrightarrow>
   SetLevels_loop a r z =
     Inr (r\<lparr>Levels := Levels r @
        map (level_Tile a (Coordinates (Location r) ! 0) (Coordinates (Location r) ! 1)) [z..maxZoom]\<rparr>)"
proof (induction a r z rule: SetLevels_loop.induct)
  case (1 a r z)
  show ?case
  proof (cases "z \<le> maxZoom")
    case True
    have l0: "0 < length (Coordinates (Location r))" and l1: "1 < length (Coordinates (Location r))"
      using "1.prems" by linarith+
    note i0 = index_in_range [OF l0] and i1 = index_in_range [OF l1]
    have "SetLevels_loop a r z =
        SetLevels_loop a (r\<lparr>Levels := Levels r @
          [level_Tile a (Coordinates (Location r) ! 0) (Coordinates (Location r) ! 1) z]\<rparr>) (z + 1)"
      using True by (subst SetLevels_loop.simps) (simp only: i0 i1 if_True sum.case)
    also have "\<dots> = Inr (r\<lparr>Levels := Levels r @
        map (level_Tile a (Coordinates (Location r) ! 0) (Coordinates (Location r) ! 1)) [z..maxZoom]\<rparr>)"
      using "1.IH" [OF True i0 i1] "1.prems" True by (simp add: upto_rec1 [of z maxZoom])
    finally show ?thesis .
  next
    case False
    then show ?thesis by (subst SetLevels_loop.simps) simp
  qed
qed

lemma SetLevels_loop_panic:
  "length (Coordinates (Location r)) < 2 \<Longrightarrow> z \<le> maxZoom \<Longrightarrow>
   SetLevels_loop a r z =
     Inl (IndexOutOfRange (length (Coordinates (Location r))) (length (Coordinates (Location r))))"
  by (subst SetLevels_loop.simps, cases "Coordinates (Location r)")
     (auto simp: index_def split: sum.splits)

lemma SetLevels_closed:
  "2 \<le> length (Coordinates (Location r)) \<Longrightarrow>
   SetLevels a r =
     Inr (r\<lparr>Levels :=
        map (level_Tile a (Coordinates (Location r) ! 0) (Coordinates (Location r) ! 1))
          [minZoom..maxZoom]\<rparr>)"
  using SetLevels_loop_closed [of "r\<lparr>Levels := []\<rparr>" a minZoom]
  by (simp add: SetLevels_def)

lemma SetLevels_panic:
  "length (Coordinates (Location r)) < 2 \<Longrightarrow>
   SetLevels a r =
     Inl (IndexOutOfRange (length (Coordinates (Location r))) (length (Coordinates (Location r))))"
  using SetLevels_loop_panic [of "r\<lparr>Levels := []\<rparr>" minZoom a]
  by (simp add: SetLevels_def minZoom_def maxZoom_def)

lemma SetLevels_Inr_iff:
  "SetLevels a r = Inr r' \<longleftrightarrow>
     2 \<le> length (Coordinates (Location r)) \<and>
     r' = r\<lparr>Levels :=
        map (level_Tile a (Coordinates (Location r) ! 0) (Coordinates (Location r) ! 1))
          [minZoom..maxZoom]\<rparr>"
proof (cases "2 \<le> length (Coordinates (Location r))")
  case True
  then show ?thesis by (auto simp: SetLevels_closed)
next
  case False
  then have "length (Coordinates (Location r)) < 2" by simp
  then show ?thesis using False by (simp add: SetLevels_panic)
qed

lemma level_Tile_sel [simp]:
  "X (level_Tile a c0 c1 z) = mX (a (c0, c1) (word_of_int z))"
  "Y (level_Tile a c0 c1 z) = mY (a (c0, c1) (word_of_int z))"
  "Z (level_Tile a c0 c1 z) = word_of_int z"
  "Key (level_Tile a c0 c1 z) =
     Sprintf_key (mX (a (c0, c1) (word_of_int z))) (mY (a (c0, c1) (word_of_int z))) z"
  "orbmaptile (level_Tile a c0 c1 z) = Some (a (c0, c1) (word_of_int z))"
  by (simp_all add: level_Tile_def Let_def)

lemma uint_zoom: "0 \<le> z \<Longrightarrow> z < 2 ^ 32 \<Longrightarrow> uint (word_of_int z :: uint32) = z"
  by (simp add: uint_word_of_int)

lemma zoom_less: "0 \<le> z \<Longrightarrow> z < z' \<Longrightarrow> z' < 2 ^ 32 \<Longrightarrow> (word_of_int z :: uint32) < word_of_int z'"
  by (simp add: word_less_def uint_word_of_int)

lemma sorted_zooms:
  "0 \<le> i \<Longrightarrow> j < 2 ^ 32 \<Longrightarrow> sorted_wrt (<) (map (\<lambda>z. word_of_int z :: uint32) [i..j])"
proof -
  assume b: "0 \<le> i" "j < 2 ^ 32"
  have "sorted_wrt (<) [i..j]"
    by (simp add: strict_sorted_iff)
  then have "sorted_wrt (\<lambda>z z'. (word_of_int z :: uint32) < word_of_int z') [i..j]"
    by (rule sorted_wrt_mono_rel [rotated]) (use b in \<open>auto simp: zoom_less\<close>)
  then show ?thesis
    by (simp add: sorted_wrt_map)
qed

section \<open>Index expressions of \<open>SetLevels\<close>\<close>

text \<open>
  Claim C9. When the coordinates slice of the record has at least two elements, the two index
  expressions of \<open>SetLevels\<close> are in bounds, every round of the loop (from whatever zoom)
  completes, and the call returns with one entry for every zoom of the range.
\<close>

theorem SetLevels_in_bounds:
  assumes "2 \<le> length (Coordinates (Location r))"
  shows "index (Coordinates (Location r)) 0 = Inr (Coordinates (Location r) ! 0) \<and>
         index (Coordinates (Location r)) 1 = Inr (Coordinates (Location r) ! 1) \<and>
         (\<forall>z. \<exists>r'. SetLevels_loop maptile_At r z = Inr r') \<and>
         (\<exists>r'. SetLevels maptile_At r = Inr r' \<and>
            map Z (Levels r') = map word_of_int [minZoom..maxZoom])"
proof -
  have l0: "0 < length (Coordinates (Location r))" and l1: "1 < length (Coordinates (Location r))"
    using assms by linarith+
  have "\<exists>r'. SetLevels_loop maptile_At r z = Inr r'" for z
    using SetLevels_loop_closed [OF assms] by blast
  moreover have "\<exists>r'. SetLevels maptile_At r = Inr r' \<and>
      map Z (Levels r') = map word_of_int [minZoom..maxZoom]"
    using SetLevels_closed [OF assms, of maptile_At] by simp
  ultimately show ?thesis
    using index_in_range [OF l0] index_in_range [OF l1] by blast
qed

text \<open>A record with three coordinates: the second is read in bounds and all fourteen
  zooms are filled in.\<close>

theorem SetLevels_in_bounds_witness:
  "2 \<le> length (Coordinates (Location
      \<lparr>ID = [], Location = \<lparr>Type = ''Point'', Coordinates = [0, 0, 7 :: real]\<rparr>, Levels = []\<rparr>)) \<and>
   index [0, 0, 7 :: real] 1 = Inr 0 \<and>
   (\<exists>r'. SetLevels (\<lambda>p z. maptile_New 0 0 z)
        \<lparr>ID = [], Location = \<lparr>Type = ''Point'', Coordinates = [0, 0, 7 :: real]\<rparr>, Levels = []\<rparr> = Inr r' \<and>
      map Z (Levels r') = [0, 1, 2, 3, 4, 5, 6, 7, 8, 9, 10, 11, 12, 13])"
proof -
  let ?r = "\<lparr>ID = [], Location = \<lparr>Type = ''Point'', Coordinates = [0, 0, 7 :: real]\<rparr>, Levels = []\<rparr>"
  have h: "2 \<le> length (Coordinates (Location ?r))" by simp
  have z: "map word_of_int [minZoom..maxZoom] = [0, 1, 2, 3, 4, 5, 6, 7, 8, 9, 10, 11, 12, 13 :: uint32]"
    by (simp add: minZoom_def maxZoom_def upto.simps)
  show ?thesis
    using SetLevels_in_bounds [OF h, of "\<lambda>p z. maptile_New 0 0 z"] h by (simp add: z)
qed

section \<open>Determinism\<close>

lemma zoom_inj: "0 \<le> z \<Longrightarrow> z < 2 ^ 32 \<Longrightarrow> 0 \<le> z' \<Longrightarrow> z' < 2 ^ 32 \<Longrightarrow>
    (word_of_int z :: uint32) = word_of_int z' \<Longrightarrow> z = z'"
  by (metis uint_zoom)

text \<open>
  Claim C8. Two runs of \<open>SetLevels\<close> on records with the same coordinates end alike: the same
  stack (\<open>X\<close>, \<open>Y\<close>, \<open>Z\<close> and key at every position), or the same panic, whatever the
  identifiers and the earlier stacks of the two records were. In particular the entries of
  the two stacks at one zoom (zoom 12, say) carry one and the same \<open>(X, Y)\<close> and key.
\<close>

theorem SetLevels_deterministic:
  assumes "Coordinates (Location r1) = Coordinates (Location r2)"
  shows "map_sum id Levels (SetLevels maptile_At r1) = map_sum id Levels (SetLevels maptile_At r2) \<and>
         (\<forall>r1' r2' t1 t2.
            SetLevels maptile_At r1 = Inr r1' \<and> SetLevels maptile_At r2 = Inr r2' \<and>
            t1 \<in> set (Levels r1') \<and> t2 \<in> set (Levels r2') \<and> Z t1 = Z t2 \<longrightarrow>
            X t1 = X t2 \<and> Y t1 = Y t2 \<and> Key t1 = Key t2)"
proof -
  let ?cs = "Coordinates (Location r2)"
  let ?tile = "level_Tile maptile_At (?cs ! 0) (?cs ! 1)"
  have same: "map_sum id Levels (SetLevels maptile_At r1) = map_sum id Levels (SetLevels maptile_At r2)"
  proof (cases "2 \<le> length ?cs")
    case True
    then show ?thesis
      using assms by (simp add: SetLevels_closed)
  next
    case False
    then have "length ?cs < 2" by simp
    then show ?thesis
      using assms by (simp add: SetLevels_panic)
  qed
  have "X t1 = X t2 \<and> Y t1 = Y t2 \<and> Key t1 = Key t2"
    if run: "SetLevels maptile_At r1 = Inr r1'" "SetLevels maptile_At r2 = Inr r2'"
      and t: "t1 \<in> set (Levels r1')" "t2 \<in> set (Levels r2')" "Z t1 = Z t2"
    for r1' r2' t1 t2
  proof -
    have "Levels r1' = map ?tile [minZoom..maxZoom]" "Levels r2' = map ?tile [minZoom..maxZoom]"
      using run assms by (auto simp: SetLevels_Inr_iff)
    then obtain z1 z2 where z: "t1 = ?tile z1" "minZoom \<le> z1" "z1 \<le> maxZoom"
        "t2 = ?tile z2" "minZoom \<le> z2" "z2 \<le> maxZoom"
      using t by auto
    have "z1 = z2"
      using t(3) z by (intro zoom_inj) (simp_all add: minZoom_def maxZoom_def)
    then show ?thesis using z by simp
  qed
  with same show ?thesis by blast
qed

text \<open>Two records at \<open>(-73.99, 40.73)\<close> that differ in identifier and in the stack they
  held before.\<close>

theorem SetLevels_deterministic_witness:
  "Coordinates (Location
      \<lparr>ID = [1], Location = \<lparr>Type = ''Point'', Coordinates = [- 73.99, 40.73 :: real]\<rparr>, Levels = []\<rparr>) =
   Coordinates (Location
      \<lparr>ID = [2], Location = \<lparr>Type = ''Point'', Coordinates = [- 73.99, 40.73 :: real]\<rparr>,
       Levels = [\<lparr>X = 5, Y = 5, Z = 5, Key = ''stale'', orbmaptile = None\<rparr>]\<rparr>) \<and>
   map_sum id Levels (SetLevels (\<lambda>p z. maptile_New 1206 1539 z)
      \<lparr>ID = [1], Location = \<lparr>Type = ''Point'', Coordinates = [- 73.99, 40.73 :: real]\<rparr>, Levels = []\<rparr>) =
   map_sum id Levels (SetLevels (\<lambda>p z. maptile_New 1206 1539 z)
      \<lparr>ID = [2], Location = \<lparr>Type = ''Point'', Coordinates = [- 73.99, 40.73 :: real]\<rparr>,
       Levels = [\<lparr>X = 5, Y = 5, Z = 5, Key = ''stale'', orbmaptile = None\<rparr>]\<rparr>)"
  using SetLevels_deterministic [of
      "\<lparr>ID = [1], Location = \<lparr>Type = ''Point'', Coordinates = [- 73.99, 40.73 :: real]\<rparr>, Levels = []\<rparr>"
      "\<lparr>ID = [2], Location = \<lparr>Type = ''Point'', Coordinates = [- 73.99, 40.73 :: real]\<rparr>,
       Levels = [\<lparr>X = 5, Y = 5, Z = 5, Key = ''stale'', orbmaptile = None\<rparr>]\<rparr>"
      "\<lambda>p z. maptile_New 1206 1539 z"]
  by simp

section \<open>Failure of \<open>SetLevels\<close>\<close>

text \<open>
  Claim C5, as the code has it. \<open>SetLevels\<close> does not look at the values of the coordinates:
  it fails exactly when the coordinates slice has fewer than two elements, with the index
  panic of the first round, and otherwise returns the full stack, for coordinates inside and
  outside the Web-Mercator range alike.
\<close>

theorem SetLevels_failure_modes:
  "(SetLevels maptile_At r = Inl e \<longleftrightarrow>
      length (Coordinates (Location r)) < 2 \<and>
      e = IndexOutOfRange (length (Coordinates (Location r))) (length (Coordinates (Location r)))) \<and>
   (2 \<le> length (Coordinates (Location r)) \<longrightarrow>
      (\<exists>r'. SetLevels maptile_At r = Inr r' \<and> length (Levels r') = nat (maxZoom - minZoom + 1)))"
proof (cases "2 \<le> length (Coordinates (Location r))")
  case True
  then show ?thesis by (simp add: SetLevels_closed)
next
  case False
  then have "length (Coordinates (Location r)) < 2" by simp
  then show ?thesis by (auto simp: SetLevels_panic)
qed

text \<open>Longitude 200 and latitude 95 are outside the valid range; the call still returns a
  stack of fourteen tiles, and no error.\<close>

theorem SetLevels_out_of_range_point:
  "map_sum id (length \<circ> Levels) (SetLevels (\<lambda>p z. maptile_New 0 0 z)
      \<lparr>ID = [], Location = \<lparr>Type = ''Point'', Coordinates = [200, 95 :: real]\<rparr>, Levels = []\<rparr>) = Inr 14"
  by (simp add: SetLevels_closed minZoom_def maxZoom_def)

text \<open>Both branches of the theorem: a point out of range with two coordinates, and a slice of
  one coordinate.\<close>

theorem SetLevels_failure_modes_witness:
  "2 \<le> length (Coordinates (Location
      \<lparr>ID = [], Location = \<lparr>Type = ''Point'', Coordinates = [200, 95 :: real]\<rparr>, Levels = []\<rparr>)) \<and>
   (\<exists>r'. SetLevels (\<lambda>p z. maptile_New 0 0 z)
      \<lparr>ID = [], Location = \<lparr>Type = ''Point'', Coordinates = [200, 95 :: real]\<rparr>, Levels = []\<rparr> = Inr r' \<and>
      length (Levels r') = 14) \<and>
   SetLevels (\<lambda>p z. maptile_New 0 0 z)
      \<lparr>ID = [], Location = \<lparr>Type = ''Point'', Coordinates = [200 :: real]\<rparr>, Levels = []\<rparr> =
     Inl (IndexOutOfRange 1 1)"
  using SetLevels_failure_modes [of "\<lambda>p z. maptile_New 0 0 z"
      "\<lparr>ID = [], Location = \<lparr>Type = ''Point'', Coordinates = [200, 95 :: real]\<rparr>, Levels = []\<rparr>"]
    SetLevels_failure_modes [of "\<lambda>p z. maptile_New 0 0 z"
      "\<lparr>ID = [], Location = \<lparr>Type = ''Point'', Coordinates = [200 :: real]\<rparr>, Levels = []\<rparr>"
      "IndexOutOfRange 1 1"]
  by (simp add: minZoom_def maxZoom_def)

section \<open>Tile keys\<close>

lemma minus_notin_FormatUint: "CHR ''-'' \<notin> set (FormatUint n)"
  using FormatUint_digits is_digit_not_minus by blast

lemma Split_key:
  "Split (FormatUint a @ CHR ''-'' # FormatUint b @ CHR ''-'' # FormatUint c) CHR ''-'' =
     [FormatUint a, FormatUint b, FormatUint c]"
  by (simp add: Split_append_sep Split_no_sep minus_notin_FormatUint)

lemma unat_uint32_less: "unat (x :: uint32) < 2 ^ 63"
proof -
  have "unat x < 2 ^ 32" using unsigned_less [of x] by simp
  then show ?thesis by simp
qed

lemma ParseInt_uint32: "ParseInt (FormatUint (unat (x :: uint32))) = (uint x, None)"
  using ParseInt_FormatUint [OF unat_uint32_less, of x] by simp

lemma parse_key_Sprintf_key:
  assumes "0 \<le> z" "z < 2 ^ 63"
  shows "parse_key (Sprintf_key x y z) = Inr (uint x, uint y, z)"
proof -
  have z: "FormatInt z = FormatUint (nat z)" "nat z < 2 ^ 63"
    using assms by (simp_all add: FormatInt_def nat_less_iff)
  have "ParseInt (FormatUint (nat z)) = (z, None)"
    using ParseInt_FormatUint [OF z(2)] assms(1) by simp
  then show ?thesis
    by (simp add: parse_key_def Sprintf_key_def z(1) Split_key index_def ParseInt_uint32)
qed

lemma uint_uint32_bounds: "0 \<le> uint (z :: uint32)" "uint (z :: uint32) < 2 ^ 63"
proof -
  have "uint z < 2 ^ 32" using uint_bounded [of z] by simp
  then show "uint z < 2 ^ 63" by simp
qed simp

lemma key_Tile_Sprintf_key: "key_Tile (Sprintf_key x y (uint z)) = Inr (maptile_New x y z)"
  using parse_key_Sprintf_key [OF uint_uint32_bounds, where x = x and y = y and z1 = z]
  by (simp add: key_Tile_def)

lemma Sprintf_key_inject:
  assumes "0 \<le> z" "z < 2 ^ 63" "0 \<le> z'" "z' < 2 ^ 63"
    and "Sprintf_key x y z = Sprintf_key x' y' z'"
  shows "x = x' \<and> y = y' \<and> z = z'"
proof -
  have "parse_key (Sprintf_key x y z) = parse_key (Sprintf_key x' y' z')"
    using assms(5) by simp
  then have "(uint x, uint y, z) = (uint x', uint y', z')"
    using assms(1-4) by (simp add: parse_key_Sprintf_key)
  then show ?thesis by (simp add: word_uint_eq_iff)
qed

lemma level_Tile_key:
  assumes "0 \<le> z" "z < 2 ^ 32"
  shows "Key (level_Tile a c0 c1 z) =
     Sprintf_key (X (level_Tile a c0 c1 z)) (Y (level_Tile a c0 c1 z)) (uint (Z (level_Tile a c0 c1 z)))"
  using assms by (simp add: uint_zoom)

lemma SetLevels_tiles:
  assumes "SetLevels a r = Inr r'" "t \<in> set (Levels r')"
  obtains z where "minZoom \<le> z" "z \<le> maxZoom"
    "t = level_Tile a (Coordinates (Location r) ! 0) (Coordinates (Location r) ! 1) z"
  using assms by (auto simp: SetLevels_Inr_iff)

text \<open>
  Claim C4. Decoding the key of a tile \<open>(x, y, z)\<close> as \<open>FromRawStatsToGeoJSONFeatureItem\<close>
  does (split at the separator, parse the three parts, convert) gives back exactly
  \<open>(x, y, z)\<close>, for all 32-bit \<open>x\<close>, \<open>y\<close> and \<open>z\<close>; two tiles have the same key only if they
  are the same tile, across zoom levels too; and every tile that \<open>SetLevels\<close> stores carries
  the key of its own \<open>(X, Y, Z)\<close>, which decodes to it.
\<close>

theorem tile_key_lossless:
  "key_Tile (Sprintf_key x y (uint z)) = Inr (maptile_New x y z) \<and>
   (Sprintf_key x y (uint z) = Sprintf_key x' y' (uint z') \<longleftrightarrow> x = x' \<and> y = y' \<and> z = z') \<and>
   (SetLevels maptile_At r = Inr r' \<and> t \<in> set (Levels r') \<longrightarrow>
      Key t = Sprintf_key (X t) (Y t) (uint (Z t)) \<and>
      key_Tile (Key t) = Inr (maptile_New (X t) (Y t) (Z t)))"
proof -
  have inj: "x = x' \<and> y = y' \<and> z = z'" if "Sprintf_key x y (uint z) = Sprintf_key x' y' (uint z')"
    using Sprintf_key_inject [OF uint_uint32_bounds uint_uint32_bounds that]
    by (simp add: word_uint_eq_iff)
  have "Key t = Sprintf_key (X t) (Y t) (uint (Z t)) \<and>
      key_Tile (Key t) = Inr (maptile_New (X t) (Y t) (Z t))"
    if "SetLevels maptile_At r = Inr r'" "t \<in> set (Levels r')"
  proof -
    from that obtain z' where z': "minZoom \<le> z'" "z' \<le> maxZoom"
      "t = level_Tile maptile_At (Coordinates (Location r) ! 0) (Coordinates (Location r) ! 1) z'"
      by (rule SetLevels_tiles)
    then have "Key t = Sprintf_key (X t) (Y t) (uint (Z t))"
      using level_Tile_key [of z'] by (simp add: minZoom_def maxZoom_def)
    then show ?thesis
      using key_Tile_Sprintf_key [of "X t" "Y t" "Z t"] by simp
  qed
  with inj show ?thesis
    using key_Tile_Sprintf_key [of x y z] by blast
qed

text \<open>The tile of zoom 12 in the stack of the point \<open>(-73.99, 40.73)\<close>.\<close>

theorem tile_key_lossless_witness:
  "(\<exists>r'. SetLevels (\<lambda>p z. maptile_New 1206 1539 z)
       \<lparr>ID = [], Location = \<lparr>Type = ''Point'', Coordinates = [- 73.99, 40.73 :: real]\<rparr>, Levels = []\<rparr> = Inr r' \<and>
       level_Tile (\<lambda>p z. maptile_New 1206 1539 z) (- 73.99) (40.73 :: real) 12 \<in> set (Levels r')) \<and>
   Sprintf_key 1206 1539 12 = ''1206-1539-12'' \<and>
   key_Tile ''1206-1539-12'' = Inr (maptile_New 1206 1539 12)"
proof -
  let ?a = "\<lambda>(p :: real \<times> real) z. maptile_New 1206 1539 z"
  let ?r = "\<lparr>ID = [], Location = \<lparr>Type = ''Point'', Coordinates = [- 73.99, 40.73 :: real]\<rparr>, Levels = []\<rparr>"
  let ?t = "level_Tile ?a (- 73.99) 40.73 12"
  let ?r' = "?r\<lparr>Levels := map (level_Tile ?a (- 73.99) 40.73) [minZoom..maxZoom]\<rparr>"
  have run: "SetLevels ?a ?r = Inr ?r'"
    using SetLevels_closed [of ?r ?a] by simp
  have mem: "?t \<in> set (Levels ?r')"
    by (simp add: minZoom_def maxZoom_def)
  have k: "Sprintf_key 1206 1539 12 = ''1206-1539-12''"
    by (simp add: Sprintf_key_def FormatInt_def FormatUint.simps digit_char_def)
  have "key_Tile (Key ?t) = Inr (maptile_New (X ?t) (Y ?t) (Z ?t))"
    using tile_key_lossless [of 0 0 0 0 0 0 ?a ?r ?r' ?t] run mem by blast
  then have "key_Tile ''1206-1539-12'' = Inr (maptile_New 1206 1539 12)"
    by (simp add: k maptile_New_def)
  with run mem k show ?thesis by blast
qed

section \<open>The stored stack\<close>

lemma digit_char_byte: "d < 10 \<Longrightarrow> of_char (digit_char d) = 48 + d"
  using digit_char_cases [of d] by (auto simp: digit_char_def)

lemma digit_char_in_digits: "d < 10 \<Longrightarrow> digit_char d \<in> set ''0123456789''"
  using digit_char_cases [of d] by (auto simp: digit_char_def)

lemma digit_char_zero: "d < 10 \<Longrightarrow> digit_char d = CHR ''0'' \<Longrightarrow> d = 0"
  using digit_char_cases [of d] by (auto simp: digit_char_def)

lemma FormatUint_in_digits: "set (FormatUint n) \<subseteq> set ''0123456789''"
proof (induction n rule: FormatUint.induct)
  case (1 n)
  show ?case
  proof (cases "n < 10")
    case True
    then show ?thesis
      using digit_char_in_digits [of n] by (subst FormatUint.simps) simp
  next
    case False
    have "set (FormatUint n) = set (FormatUint (n div 10)) \<union> {digit_char (n mod 10)}"
      using False by (subst FormatUint.simps) simp
    then show ?thesis
      using "1.IH" [OF False] digit_char_in_digits [of "n mod 10"] by simp
  qed
qed

lemma FormatUint_value: "foldl (\<lambda>a c. a * 10 + (of_char c - 48)) 0 (FormatUint n) = n"
proof (induction n rule: FormatUint.induct)
  case (1 n)
  show ?case
  proof (cases "n < 10")
    case True
    then show ?thesis
      by (subst FormatUint.simps) (simp add: digit_char_byte)
  next
    case False
    have "foldl (\<lambda>a c. a * 10 + (of_char c - 48)) 0 (FormatUint n) =
        foldl (\<lambda>a c. a * 10 + (of_char c - 48)) 0 (FormatUint (n div 10)) * 10 + n mod 10"
      using False by (subst FormatUint.simps) (simp add: digit_char_byte)
    then show ?thesis using "1.IH" [OF False] by simp
  qed
qed

lemma FormatUint_no_leading_zero: "hd (FormatUint n) = CHR ''0'' \<Longrightarrow> n = 0"
proof (induction n rule: FormatUint.induct)
  case (1 n)
  show ?case
  proof (cases "n < 10")
    case True
    then have "hd (FormatUint n) = digit_char n"
      by (subst FormatUint.simps) simp
    then show ?thesis using True "1.prems" digit_char_zero by simp
  next
    case False
    have "hd (FormatUint n) = hd (FormatUint (n div 10))"
      using False FormatUint_nonempty [of "n div 10"] by (subst FormatUint.simps) simp
    then have "n div 10 = 0"
      using "1.IH" [OF False] "1.prems" by simp
    then show ?thesis using False by simp
  qed
qed

lemma level_Tile_key_decimal:
  assumes "0 \<le> z"
  shows "\<exists>dx dy dz.
      Key (level_Tile a c0 c1 z) = dx @ ''-'' @ dy @ ''-'' @ dz \<and>
      dx \<noteq> [] \<and> set dx \<subseteq> set ''0123456789'' \<and>
      (hd dx = CHR ''0'' \<longrightarrow> X (level_Tile a c0 c1 z) = 0) \<and>
      foldl (\<lambda>a c. a * 10 + (of_char c - 48)) 0 dx = unat (X (level_Tile a c0 c1 z)) \<and>
      dy \<noteq> [] \<and> set dy \<subseteq> set ''0123456789'' \<and>
      (hd dy = CHR ''0'' \<longrightarrow> Y (level_Tile a c0 c1 z) = 0) \<and>
      foldl (\<lambda>a c. a * 10 + (of_char c - 48)) 0 dy = unat (Y (level_Tile a c0 c1 z)) \<and>
      dz \<noteq> [] \<and> set dz \<subseteq> set ''0123456789'' \<and>
      (hd dz = CHR ''0'' \<longrightarrow> z = 0) \<and>
      int (foldl (\<lambda>a c. a * 10 + (of_char c - 48)) 0 dz) = z"
proof -
  let ?t = "level_Tile a c0 c1 z"
  let ?dx = "FormatUint (unat (X ?t))" and ?dy = "FormatUint (unat (Y ?t))"
    and ?dz = "FormatUint (nat z)"
  have k: "Key ?t = ?dx @ ''-'' @ ?dy @ ''-'' @ ?dz"
    using assms by (simp add: Sprintf_key_def FormatInt_def)
  have x0: "hd ?dx = CHR ''0'' \<longrightarrow> X ?t = 0"
    using FormatUint_no_leading_zero [of "unat (X ?t)"] by (simp add: unat_eq_0)
  have y0: "hd ?dy = CHR ''0'' \<longrightarrow> Y ?t = 0"
    using FormatUint_no_leading_zero [of "unat (Y ?t)"] by (simp add: unat_eq_0)
  have z0: "hd ?dz = CHR ''0'' \<longrightarrow> z = 0"
    using FormatUint_no_leading_zero [of "nat z"] assms by auto
  have zv: "int (foldl (\<lambda>a c. a * 10 + (of_char c - 48)) 0 ?dz) = z"
    using assms by (simp add: FormatUint_value)
  show ?thesis
    using k x0 y0 z0 zv FormatUint_nonempty FormatUint_in_digits FormatUint_value
    by (intro exI [of _ ?dx] exI [of _ ?dy] exI [of _ ?dz]) blast
qed

lemma level_Tile_decodes:
  assumes "0 \<le> z" "z < 2 ^ 32"
  shows "key_Tile (Key (level_Tile a c0 c1 z)) =
     Inr (maptile_New (X (level_Tile a c0 c1 z)) (Y (level_Tile a c0 c1 z)) (Z (level_Tile a c0 c1 z)))"
  using key_Tile_Sprintf_key [of "X (level_Tile a c0 c1 z)" "Y (level_Tile a c0 c1 z)"
      "Z (level_Tile a c0 c1 z)"]
  by (simp only: level_Tile_key [OF assms, symmetric])

text \<open>
  What \<open>SetLevels\<close> stores for a record whose point has its two coordinates. The call
  returns; identifier and location are unchanged; the stack has \<open>maxZoom - minZoom + 1\<close>
  entries, strictly increasing in \<open>Z\<close>, the entry at position \<open>i\<close> being the one of zoom
  \<open>minZoom + i\<close>. Its \<open>X\<close> and \<open>Y\<close> are those of the tile that \<open>maptile.At\<close> returns for the
  point at the entry's zoom; whether that tile is the Web-Mercator tile of the point is
  decided by the floating-point code of the library and is outside this theory. Its key is
  three decimal numerals joined by \<open>-\<close>: each is a non-empty string of the digits
  \<open>0\<close> to \<open>9\<close>, without a leading zero unless the number is zero, whose value is the entry's
  \<open>X\<close>, its \<open>Y\<close> and its zoom; and the key decodes to the entry's \<open>(X, Y, Z)\<close>.
\<close>

theorem SetLevels_stack:
  assumes "2 \<le> length (Coordinates (Location r))"
  shows "\<exists>r'. SetLevels maptile_At r = Inr r' \<and>
           ID r' = ID r \<and> Location r' = Location r \<and>
           length (Levels r') = nat (maxZoom - minZoom + 1) \<and>
           sorted_wrt (<) (map Z (Levels r')) \<and>
           (\<forall>i < length (Levels r').
              Z (Levels r' ! i) = word_of_int (minZoom + int i) \<and>
              X (Levels r' ! i) =
                mX (maptile_At (Coordinates (Location r) ! 0, Coordinates (Location r) ! 1)
                      (Z (Levels r' ! i))) \<and>
              Y (Levels r' ! i) =
                mY (maptile_At (Coordinates (Location r) ! 0, Coordinates (Location r) ! 1)
                      (Z (Levels r' ! i))) \<and>
              key_Tile (Key (Levels r' ! i)) =
                Inr (maptile_New (X (Levels r' ! i)) (Y (Levels r' ! i)) (Z (Levels r' ! i))) \<and>
              (\<exists>dx dy dz.
                 Key (Levels r' ! i) = dx @ ''-'' @ dy @ ''-'' @ dz \<and>
                 dx \<noteq> [] \<and> set dx \<subseteq> set ''0123456789'' \<and>
                 (hd dx = CHR ''0'' \<longrightarrow> X (Levels r' ! i) = 0) \<and>
                 foldl (\<lambda>a c. a * 10 + (of_char c - 48)) 0 dx = unat (X (Levels r' ! i)) \<and>
                 dy \<noteq> [] \<and> set dy \<subseteq> set ''0123456789'' \<and>
                 (hd dy = CHR ''0'' \<longrightarrow> Y (Levels r' ! i) = 0) \<and>
                 foldl (\<lambda>a c. a * 10 + (of_char c - 48)) 0 dy = unat (Y (Levels r' ! i)) \<and>
                 dz \<noteq> [] \<and> set dz \<subseteq> set ''0123456789'' \<and>
                 (hd dz = CHR ''0'' \<longrightarrow> minZoom + int i = 0) \<and>
                 int (foldl (\<lambda>a c. a * 10 + (of_char c - 48)) 0 dz) = minZoom + int i))"
proof -
  let ?tile = "level_Tile maptile_At (Coordinates (Location r) ! 0) (Coordinates (Location r) ! 1)"
  let ?r' = "r\<lparr>Levels := map ?tile [minZoom..maxZoom]\<rparr>"
  have run: "SetLevels maptile_At r = Inr ?r'"
    using assms by (rule SetLevels_closed)
  have len: "length (Levels ?r') = nat (maxZoom - minZoom + 1)"
    by simp
  have zs: "map Z (Levels ?r') = map (\<lambda>z. word_of_int z :: uint32) [minZoom..maxZoom]"
    by simp
  have "sorted_wrt (<) (map (\<lambda>z. word_of_int z :: uint32) [minZoom..maxZoom])"
    by (rule sorted_zooms) (simp_all add: minZoom_def maxZoom_def)
  then have srt: "sorted_wrt (<) (map Z (Levels ?r'))"
    by (simp only: zs)
  have entry: "Z (Levels ?r' ! i) = word_of_int (minZoom + int i) \<and>
      X (Levels ?r' ! i) =
        mX (maptile_At (Coordinates (Location r) ! 0, Coordinates (Location r) ! 1)
              (Z (Levels ?r' ! i))) \<and>
      Y (Levels ?r' ! i) =
        mY (maptile_At (Coordinates (Location r) ! 0, Coordinates (Location r) ! 1)
              (Z (Levels ?r' ! i))) \<and>
      key_Tile (Key (Levels ?r' ! i)) =
        Inr (maptile_New (X (Levels ?r' ! i)) (Y (Levels ?r' ! i)) (Z (Levels ?r' ! i))) \<and>
      (\<exists>dx dy dz.
         Key (Levels ?r' ! i) = dx @ ''-'' @ dy @ ''-'' @ dz \<and>
         dx \<noteq> [] \<and> set dx \<subseteq> set ''0123456789'' \<and>
         (hd dx = CHR ''0'' \<longrightarrow> X (Levels ?r' ! i) = 0) \<and>
         foldl (\<lambda>a c. a * 10 + (of_char c - 48)) 0 dx = unat (X (Levels ?r' ! i)) \<and>
         dy \<noteq> [] \<and> set dy \<subseteq> set ''0123456789'' \<and>
         (hd dy = CHR ''0'' \<longrightarrow> Y (Levels ?r' ! i) = 0) \<and>
         foldl (\<lambda>a c. a * 10 + (of_char c - 48)) 0 dy = unat (Y (Levels ?r' ! i)) \<and>
         dz \<noteq> [] \<and> set dz \<subseteq> set ''0123456789'' \<and>
         (hd dz = CHR ''0'' \<longrightarrow> minZoom + int i = 0) \<and>
         int (foldl (\<lambda>a c. a * 10 + (of_char c - 48)) 0 dz) = minZoom + int i)"
    if i: "i < length (Levels ?r')" for i
  proof -
    let ?z = "minZoom + int i"
    have nth: "Levels ?r' ! i = ?tile ?z"
      using i by simp
    have z: "0 \<le> ?z" "?z < 2 ^ 32"
      using i by (simp_all add: minZoom_def maxZoom_def)
    show ?thesis
      unfolding nth
      using level_Tile_decodes [OF z, of maptile_At] level_Tile_key_decimal [OF z(1), of maptile_At]
      by (simp only: level_Tile_sel)
  qed
  show ?thesis
    using run len srt entry by (intro exI [of _ ?r']) (simp only: simp_thms, simp)
qed

text \<open>
  The theorem at the point \<open>(-73.99, 40.73)\<close>, with a library that answers every call with
  the tile \<open>(1206, 1539)\<close> at the zoom asked for: the entry of zoom 12 is that tile, and its
  key decodes to it.
\<close>

theorem SetLevels_stack_witness:
  "2 \<le> length (Coordinates (Location
      \<lparr>ID = [], Location = \<lparr>Type = ''Point'', Coordinates = [- 73.99, 40.73 :: real]\<rparr>, Levels = []\<rparr>)) \<and>
   (\<exists>r'. SetLevels (\<lambda>p z. maptile_New 1206 1539 z)
        \<lparr>ID = [], Location = \<lparr>Type = ''Point'', Coordinates = [- 73.99, 40.73 :: real]\<rparr>, Levels = []\<rparr> = Inr r' \<and>
      length (Levels r') = 14 \<and>
      Z (Levels r' ! 12) = 12 \<and> X (Levels r' ! 12) = 1206 \<and> Y (Levels r' ! 12) = 1539 \<and>
      key_Tile (Key (Levels r' ! 12)) = Inr (maptile_New 1206 1539 12))"
proof -
  let ?r = "\<lparr>ID = [], Location = \<lparr>Type = ''Point'', Coordinates = [- 73.99, 40.73 :: real]\<rparr>, Levels = []\<rparr>"
  have h: "2 \<le> length (Coordinates (Location ?r))" by simp
  from SetLevels_stack [OF h, of "\<lambda>p z. maptile_New 1206 1539 z"]
  obtain r' where run: "SetLevels (\<lambda>p z. maptile_New 1206 1539 z) ?r = Inr r'"
    and len: "length (Levels r') = nat (maxZoom - minZoom + 1)"
    and entry: "\<And>i. i < length (Levels r') \<Longrightarrow>
        Z (Levels r' ! i) = word_of_int (minZoom + int i) \<and>
        X (Levels r' ! i) = mX (maptile_New 1206 1539 (Z (Levels r' ! i))) \<and>
        Y (Levels r' ! i) = mY (maptile_New 1206 1539 (Z (Levels r' ! i))) \<and>
        key_Tile (Key (Levels r' ! i)) =
          Inr (maptile_New (X (Levels r' ! i)) (Y (Levels r' ! i)) (Z (Levels r' ! i)))"
    by blast
  have l: "length (Levels r') = 14"
    using len by (simp add: minZoom_def maxZoom_def)
  then have "12 < length (Levels r')" by simp
  from entry [OF this]
  have "Z (Levels r' ! 12) = 12 \<and> X (Levels r' ! 12) = 1206 \<and> Y (Levels r' ! 12) = 1539 \<and>
      key_Tile (Key (Levels r' ! 12)) = Inr (maptile_New 1206 1539 12)"
    by (simp add: minZoom_def maptile_New_def)
  with h run l show ?thesis by blast
qed

section \<open>The cached projection of a tile\<close>

text \<open>
  Claim C10. \<open>Center\<close> changes no field of the tile but \<open>orbmaptile\<close>: \<open>X\<close>, \<open>Y\<close>, \<open>Z\<close> and
  \<open>Key\<close> are as before. When the cached projection is unset or is the library tile of the
  tile's own \<open>(X, Y, Z)\<close>, the result is the library's centre of that tile, a function of
  \<open>(X, Y, Z)\<close> alone, and the cache then holds it. A second call returns the same result and
  leaves the tile as the first call left it. Every tile that \<open>SetLevels\<close> stores has its
  cache built from its own \<open>(X, Y, Z)\<close>, provided \<open>maptile.At\<close> returns a tile of the zoom it
  was asked for.
\<close>

theorem Center_frame:
  "fst (Center maptile_Center t) = t\<lparr>orbmaptile := orbmaptile (fst (Center maptile_Center t))\<rparr> \<and>
   X (fst (Center maptile_Center t)) = X t \<and> Y (fst (Center maptile_Center t)) = Y t \<and>
   Z (fst (Center maptile_Center t)) = Z t \<and> Key (fst (Center maptile_Center t)) = Key t \<and>
   (orbmaptile t = None \<or> orbmaptile t = Some (maptile_New (X t) (Y t) (Z t)) \<longrightarrow>
      snd (Center maptile_Center t) = maptile_Center (maptile_New (X t) (Y t) (Z t)) \<and>
      orbmaptile (fst (Center maptile_Center t)) = Some (maptile_New (X t) (Y t) (Z t))) \<and>
   Center maptile_Center (fst (Center maptile_Center t)) =
     (fst (Center maptile_Center t), snd (Center maptile_Center t)) \<and>
   ((\<forall>p z. mZ (maptile_At p z) = z) \<and> SetLevels maptile_At r = Inr r' \<and> t' \<in> set (Levels r') \<longrightarrow>
      orbmaptile t' = Some (maptile_New (X t') (Y t') (Z t')))"
proof -
  have frame: "fst (Center maptile_Center t) = t\<lparr>orbmaptile := orbmaptile (fst (Center maptile_Center t))\<rparr>"
    by (cases "orbmaptile t") (simp_all add: Center_def Let_def)
  have sel: "X (fst (Center maptile_Center t)) = X t \<and> Y (fst (Center maptile_Center t)) = Y t \<and>
      Z (fst (Center maptile_Center t)) = Z t \<and> Key (fst (Center maptile_Center t)) = Key t"
    by (cases "orbmaptile t") (simp_all add: Center_def Let_def)
  have own: "snd (Center maptile_Center t) = maptile_Center (maptile_New (X t) (Y t) (Z t)) \<and>
      orbmaptile (fst (Center maptile_Center t)) = Some (maptile_New (X t) (Y t) (Z t))"
    if "orbmaptile t = None \<or> orbmaptile t = Some (maptile_New (X t) (Y t) (Z t))"
    using that by (auto simp: Center_def Let_def)
  have again: "Center maptile_Center (fst (Center maptile_Center t)) =
      (fst (Center maptile_Center t), snd (Center maptile_Center t))"
    by (cases "orbmaptile t") (simp_all add: Center_def Let_def)
  have made: "orbmaptile t' = Some (maptile_New (X t') (Y t') (Z t'))"
    if lib: "\<forall>p z. mZ (maptile_At p z) = z" and run: "SetLevels maptile_At r = Inr r'"
      and t': "t' \<in> set (Levels r')"
  proof -
    from run t' obtain z where
      "t' = level_Tile maptile_At (Coordinates (Location r) ! 0) (Coordinates (Location r) ! 1) z"
      by (rule SetLevels_tiles)
    then show ?thesis
      using lib by (simp add: maptile_New_def)
  qed
  from frame sel own again made show ?thesis by blast
qed

text \<open>The tile of zoom 12 of the point \<open>(-73.99, 40.73)\<close>, with a centre function that reads
  the tile's \<open>X\<close> and \<open>Y\<close>.\<close>

theorem Center_frame_witness:
  "(\<forall>p z. mZ (maptile_New 1206 1539 z) = z) \<and>
   (\<exists>r'. SetLevels (\<lambda>p z. maptile_New 1206 1539 z)
       \<lparr>ID = [], Location = \<lparr>Type = ''Point'', Coordinates = [- 73.99, 40.73 :: real]\<rparr>, Levels = []\<rparr> = Inr r' \<and>
       level_Tile (\<lambda>p z. maptile_New 1206 1539 z) (- 73.99) (40.73 :: real) 12 \<in> set (Levels r')) \<and>
   orbmaptile (level_Tile (\<lambda>p z. maptile_New 1206 1539 z) (- 73.99) (40.73 :: real) 12) =
     Some (maptile_New 1206 1539 12) \<and>
   snd (Center (\<lambda>m. (real (unat (mX m)), real (unat (mY m))))
     (level_Tile (\<lambda>p z. maptile_New 1206 1539 z) (- 73.99) (40.73 :: real) 12)) = (1206, 1539)"
proof -
  let ?a = "\<lambda>(p :: real \<times> real) z. maptile_New 1206 1539 z"
  let ?c = "\<lambda>m. (real (unat (mX m)), real (unat (mY m)))"
  let ?r = "\<lparr>ID = [], Location = \<lparr>Type = ''Point'', Coordinates = [- 73.99, 40.73 :: real]\<rparr>, Levels = []\<rparr>"
  let ?t = "level_Tile ?a (- 73.99) 40.73 12"
  let ?r' = "?r\<lparr>Levels := map (level_Tile ?a (- 73.99) 40.73) [minZoom..maxZoom]\<rparr>"
  have lib: "\<forall>p z. mZ (?a p z) = z"
    by (simp add: maptile_New_def)
  have run: "SetLevels ?a ?r = Inr ?r'"
    using SetLevels_closed [of ?r ?a] by simp
  have mem: "?t \<in> set (Levels ?r')"
    by (simp add: minZoom_def maxZoom_def)
  have sel: "X ?t = 1206" "Y ?t = 1539" "Z ?t = 12"
    by (simp_all add: maptile_New_def)
  have cached: "orbmaptile ?t = Some (maptile_New (X ?t) (Y ?t) (Z ?t))"
    using Center_frame [of ?c ?t ?a ?r ?r' ?t] lib run mem by blast
  then have "snd (Center ?c ?t) = ?c (maptile_New (X ?t) (Y ?t) (Z ?t))"
    using Center_frame [of ?c ?t ?a ?r ?r' ?t] by blast
  then have "snd (Center ?c ?t) = (1206, 1539)"
    by (simp only: sel) (simp add: maptile_New_def)
  moreover have "orbmaptile ?t = Some (maptile_New 1206 1539 12)"
    using cached by (simp only: sel)
  ultimately show ?thesis
    using lib run mem by blast
qed

section \<open>Decoding the keys of the aggregation\<close>

lemma ParseInt_syntax_zero: "snd (ParseInt s) = Some ErrSyntax \<Longrightarrow> fst (ParseInt s) = 0"
  by (auto simp: ParseInt_def Let_def split: if_splits prod.splits)

lemma Split_nonempty: "Split s sep \<noteq> []"
  by (cases s) simp_all

lemma parse_key_cases:
  "parse_key k =
     (if length (Split k CHR ''-'') < 3
      then Inl (IndexOutOfRange (length (Split k CHR ''-'')) (length (Split k CHR ''-'')))
      else Inr (fst (ParseInt (Split k CHR ''-'' ! 0)), fst (ParseInt (Split k CHR ''-'' ! 1)),
                fst (ParseInt (Split k CHR ''-'' ! 2))))"
proof -
  have "0 < length (Split k CHR ''-'')"
    using Split_nonempty [of k "CHR ''-''"] by simp
  then consider "length (Split k CHR ''-'') = 1" | "length (Split k CHR ''-'') = 2"
    | "3 \<le> length (Split k CHR ''-'')"
    by linarith
  then show ?thesis
    by cases (auto simp: parse_key_def Let_def index_def)
qed

lemma demo_loop_panic:
  "raw \<in> set rawRes \<Longrightarrow> FromRawStatsToGeoJSONFeatureItem c raw = Inl e \<Longrightarrow>
   \<exists>e'. demo_loop c rawRes = Inl e'"
  by (induction rawRes) (auto split: sum.splits)

lemma demo_loop_features:
  "\<forall>raw \<in> set rawRes. \<exists>f. FromRawStatsToGeoJSONFeatureItem c raw = Inr f \<Longrightarrow>
   \<exists>res. demo_loop c rawRes = Inr res \<and> length res = length rawRes"
  by (induction rawRes) (auto split: sum.splits)

lemma FromRawStats_cases:
  "FromRawStatsToGeoJSONFeatureItem c raw =
     (case key_Tile (RawStats_ID raw) of
        Inl e \<Rightarrow> Inl e
      | Inr m \<Rightarrow>
          Inr \<lparr>Feature_Type = ''Feature'',
                Properties = [''count'' \<mapsto> JInt (RawStats_Count raw),
                              ''tileKey'' \<mapsto> JString (RawStats_ID raw)],
                Geometry = \<lparr>Type = ''Point'', Coordinates = [fst (c m), snd (c m)]\<rparr>\<rparr>)"
  by (simp add: FromRawStatsToGeoJSONFeatureItem_def Let_def split: sum.splits)

lemma key_Tile_cases:
  "key_Tile k =
     (if length (Split k CHR ''-'') < 3
      then Inl (IndexOutOfRange (length (Split k CHR ''-'')) (length (Split k CHR ''-'')))
      else Inr (maptile_New (word_of_int (fst (ParseInt (Split k CHR ''-'' ! 0))))
                  (word_of_int (fst (ParseInt (Split k CHR ''-'' ! 1))))
                  (word_of_int (fst (ParseInt (Split k CHR ''-'' ! 2))))))"
  by (simp add: key_Tile_def parse_key_cases)

text \<open>
  Claim C6, as the code has it. A key is never rejected as malformed. A key with at least
  three parts between its separators yields a feature, built from what \<open>strconv.ParseInt\<close>
  returns for the first three parts with its error discarded (0 for a part that is not a
  number); a whole result of such keys yields one feature per entry. A key with fewer than
  three parts makes the index expression panic, which ends the loop of \<open>demo\<close>.
\<close>

theorem FromRawStats_no_MalformedKey:
  "(3 \<le> length (Split (RawStats_ID raw) CHR ''-'') \<longrightarrow>
      (\<exists>f. FromRawStatsToGeoJSONFeatureItem maptile_Center raw = Inr f \<and>
         Properties f ''count'' = Some (JInt (RawStats_Count raw)) \<and>
         Properties f ''tileKey'' = Some (JString (RawStats_ID raw)) \<and>
         Coordinates (Geometry f) =
           [fst (maptile_Center (maptile_New
                (word_of_int (fst (ParseInt (Split (RawStats_ID raw) CHR ''-'' ! 0))))
                (word_of_int (fst (ParseInt (Split (RawStats_ID raw) CHR ''-'' ! 1))))
                (word_of_int (fst (ParseInt (Split (RawStats_ID raw) CHR ''-'' ! 2)))))),
            snd (maptile_Center (maptile_New
                (word_of_int (fst (ParseInt (Split (RawStats_ID raw) CHR ''-'' ! 0))))
                (word_of_int (fst (ParseInt (Split (RawStats_ID raw) CHR ''-'' ! 1))))
                (word_of_int (fst (ParseInt (Split (RawStats_ID raw) CHR ''-'' ! 2))))))])) \<and>
   (snd (ParseInt s) = Some ErrSyntax \<longrightarrow> fst (ParseInt s) = 0) \<and>
   (length (Split (RawStats_ID raw) CHR ''-'') < 3 \<longrightarrow>
      FromRawStatsToGeoJSONFeatureItem maptile_Center raw =
        Inl (IndexOutOfRange (length (Split (RawStats_ID raw) CHR ''-''))
               (length (Split (RawStats_ID raw) CHR ''-''))) \<and>
      (raw \<in> set rawRes \<longrightarrow> (\<exists>e. demo_loop maptile_Center rawRes = Inl e))) \<and>
   ((\<forall>item \<in> set rawRes. 3 \<le> length (Split (RawStats_ID item) CHR ''-'')) \<longrightarrow>
      (\<exists>res. demo_loop maptile_Center rawRes = Inr res \<and> length res = length rawRes))"
proof -
  have ok: "\<exists>f. FromRawStatsToGeoJSONFeatureItem maptile_Center item = Inr f \<and>
         Properties f ''count'' = Some (JInt (RawStats_Count item)) \<and>
         Properties f ''tileKey'' = Some (JString (RawStats_ID item)) \<and>
         Coordinates (Geometry f) =
           [fst (maptile_Center (maptile_New
                (word_of_int (fst (ParseInt (Split (RawStats_ID item) CHR ''-'' ! 0))))
                (word_of_int (fst (ParseInt (Split (RawStats_ID item) CHR ''-'' ! 1))))
                (word_of_int (fst (ParseInt (Split (RawStats_ID item) CHR ''-'' ! 2)))))),
            snd (maptile_Center (maptile_New
                (word_of_int (fst (ParseInt (Split (RawStats_ID item) CHR ''-'' ! 0))))
                (word_of_int (fst (ParseInt (Split (RawStats_ID item) CHR ''-'' ! 1))))
                (word_of_int (fst (ParseInt (Split (RawStats_ID item) CHR ''-'' ! 2))))))]"
    if "3 \<le> length (Split (RawStats_ID item) CHR ''-'')" for item
    using that by (simp add: FromRawStats_cases key_Tile_cases)
  have bad: "FromRawStatsToGeoJSONFeatureItem maptile_Center raw =
        Inl (IndexOutOfRange (length (Split (RawStats_ID raw) CHR ''-''))
               (length (Split (RawStats_ID raw) CHR ''-'')))"
    if "length (Split (RawStats_ID raw) CHR ''-'') < 3"
    using that by (simp add: FromRawStats_cases key_Tile_cases)
  have abort: "\<exists>e. demo_loop maptile_Center rawRes = Inl e"
    if "length (Split (RawStats_ID raw) CHR ''-'') < 3" "raw \<in> set rawRes"
    using demo_loop_panic [OF that(2) bad [OF that(1)]] .
  have all: "\<exists>res. demo_loop maptile_Center rawRes = Inr res \<and> length res = length rawRes"
    if "\<forall>item \<in> set rawRes. 3 \<le> length (Split (RawStats_ID item) CHR ''-'')"
    using that ok by (intro demo_loop_features) blast
  from ok [of raw] bad abort all ParseInt_syntax_zero [of s] show ?thesis
    by blast
qed

text \<open>The key \<open>a-b-c\<close> does not parse; it decodes to the tile \<open>(0, 0, 0)\<close> and the loop of
  \<open>demo\<close> emits a feature for it.\<close>

theorem unparsable_key_feature:
  "snd (ParseInt ''a'') = Some ErrSyntax \<and>
   key_Tile ''a-b-c'' = Inr (maptile_New 0 0 0) \<and>
   map_sum id (map (\<lambda>f. (Properties f ''tileKey'', Coordinates (Geometry f))))
     (demo_loop (\<lambda>m. (real (unat (mX m)), real (unat (mY m))))
        [\<lparr>RawStats_ID = ''a-b-c'', RawStats_Count = 1\<rparr>]) =
     Inr [(Some (JString ''a-b-c''), [0, 0])]"
  by (simp add: FromRawStats_cases key_Tile_cases ParseInt_def ParseUint_def is_digit_def
      maptile_New_def)

text \<open>Both kinds of key: \<open>a-b-c\<close> with three parts, \<open>12\<close> with one.\<close>

theorem FromRawStats_no_MalformedKey_witness:
  "3 \<le> length (Split ''a-b-c'' CHR ''-'') \<and> snd (ParseInt ''a'') = Some ErrSyntax \<and>
   (\<exists>f. FromRawStatsToGeoJSONFeatureItem (\<lambda>m. (real (unat (mX m)), real (unat (mY m))))
           \<lparr>RawStats_ID = ''a-b-c'', RawStats_Count = 1\<rparr> = Inr f \<and>
        Coordinates (Geometry f) = [0, 0]) \<and>
   length (Split ''12'' CHR ''-'') < 3 \<and>
   FromRawStatsToGeoJSONFeatureItem (\<lambda>m. (real (unat (mX m)), real (unat (mY m))))
      \<lparr>RawStats_ID = ''12'', RawStats_Count = 1\<rparr> = Inl (IndexOutOfRange 1 1) \<and>
   (\<exists>e. demo_loop (\<lambda>m. (real (unat (mX m)), real (unat (mY m))))
      [\<lparr>RawStats_ID = ''a-b-c'', RawStats_Count = 1\<rparr>, \<lparr>RawStats_ID = ''12'', RawStats_Count = 1\<rparr>] = Inl e)"
proof -
  let ?c = "\<lambda>m. (real (unat (mX m)), real (unat (mY m)))"
  let ?g = "\<lparr>RawStats_ID = ''a-b-c'', RawStats_Count = 1\<rparr>"
  let ?b = "\<lparr>RawStats_ID = ''12'', RawStats_Count = 1\<rparr>"
  have p: "ParseInt ''a'' = (0, Some ErrSyntax)" "ParseInt ''b'' = (0, Some ErrSyntax)"
      "ParseInt ''c'' = (0, Some ErrSyntax)"
    by (simp_all add: ParseInt_def ParseUint_def is_digit_def)
  have l: "3 \<le> length (Split (RawStats_ID ?g) CHR ''-'')" "length (Split (RawStats_ID ?b) CHR ''-'') < 3"
    by simp_all
  have "\<exists>f. FromRawStatsToGeoJSONFeatureItem ?c ?g = Inr f \<and> Coordinates (Geometry f) = [0, 0]"
    using FromRawStats_no_MalformedKey [of ?g ?c "''a''" "[]"] l(1)
    by (auto simp: p maptile_New_def)
  moreover have "FromRawStatsToGeoJSONFeatureItem ?c ?b = Inl (IndexOutOfRange 1 1) \<and>
      (\<exists>e. demo_loop ?c [?g, ?b] = Inl e)"
    using FromRawStats_no_MalformedKey [of ?b ?c "''a''" "[?g, ?b]"] l(2)
    by simp
  ultimately show ?thesis
    using p(1) by simp
qed

section \<open>Aggregation\<close>

lemma match_level_unwind:
  "match_level level (unwind_levels docs) = concat (map (\<lambda>r. map (Pair r) (tiles_at level r)) docs)"
  by (induction docs) (simp_all add: match_level_def unwind_levels_def tiles_at_def filter_map comp_def)

lemma tiles_at_Nil_iff: "tiles_at level r = [] \<longleftrightarrow> \<not> (\<exists>t \<in> set (Levels r). uint (Z t) = level)"
  by (auto simp: tiles_at_def filter_empty_conv)

lemma first_match_redundant:
  "match_level level (unwind_levels (match_levels level docs)) = match_level level (unwind_levels docs)"
  unfolding match_level_unwind
  by (induction docs) (auto simp: match_levels_def tiles_at_Nil_iff)

lemma Aggregate_keys:
  "Aggregate stored level =
     (let keys = concat (map (\<lambda>r. map Key (tiles_at level r)) stored)
      in map (\<lambda>k. \<lparr>RawStats_ID = k, RawStats_Count = int (count_list keys k)\<rparr>) (remdups keys))"
proof -
  have "map (\<lambda>(r, t). Key t) (concat (map (\<lambda>r. map (Pair r) (tiles_at level r)) stored)) =
      concat (map (\<lambda>r. map Key (tiles_at level r)) stored)"
    by (induction stored) (simp_all add: comp_def)
  moreover have "match_level level (unwind_levels (match_levels level stored)) =
      concat (map (\<lambda>r. map (Pair r) (tiles_at level r)) stored)"
    by (subst first_match_redundant) (rule match_level_unwind)
  ultimately show ?thesis
    by (simp add: Aggregate_def group_by_key_def Let_def)
qed

lemma sum_count_list_remdups: "(\<Sum>k\<leftarrow>remdups ks. int (count_list ks k)) = int (length ks)"
proof -
  have "(\<Sum>k\<leftarrow>remdups ks. count_list ks k) = sum (count_list ks) (set ks)"
    by (simp add: sum_list_distinct_conv_sum_set)
  also have "\<dots> = length ks"
    by (rule sum_count_set) simp_all
  finally have "int (\<Sum>k\<leftarrow>remdups ks. count_list ks k) = int (length ks)"
    by simp
  moreover have "(\<Sum>k\<leftarrow>remdups ks. int (count_list ks k)) = int (\<Sum>k\<leftarrow>remdups ks. count_list ks k)"
    using sum_list_of_nat [of "map (count_list ks) (remdups ks)", where 'a = int]
    by (simp add: comp_def)
  ultimately show ?thesis
    by simp
qed

lemma distinct_zoom_tiles_at:
  "distinct (map Z ts) \<Longrightarrow> length (filter (\<lambda>t. uint (Z t) = level) ts) \<le> 1"
proof (induction ts)
  case Nil
  then show ?case by simp
next
  case (Cons t ts)
  show ?case
  proof (cases "uint (Z t) = level")
    case True
    have "filter (\<lambda>t. uint (Z t) = level) ts = []"
    proof (rule ccontr)
      assume "filter (\<lambda>t. uint (Z t) = level) ts \<noteq> []"
      then obtain t' where "t' \<in> set ts" "uint (Z t') = level"
        by (auto simp: filter_empty_conv)
      then have "Z t \<in> Z ` set ts"
        using True by (auto simp: word_uint_eq_iff image_iff)
      then show False using Cons.prems by simp
    qed
    then show ?thesis by simp
  next
    case False
    then show ?thesis using Cons by simp
  qed
qed

lemma length_keys:
  assumes "\<forall>r \<in> set stored. length (tiles_at level r) \<le> 1"
  shows "length (concat (map (\<lambda>r. map Key (tiles_at level r)) stored)) =
         length (filter (\<lambda>r. \<exists>t \<in> set (Levels r). uint (Z t) = level) stored)"
  using assms
proof (induction stored)
  case Nil
  then show ?case by simp
next
  case (Cons r stored)
  have le: "length (tiles_at level r) \<le> 1" using Cons.prems by simp
  show ?case
  proof (cases "tiles_at level r = []")
    case True
    then show ?thesis
      using Cons tiles_at_Nil_iff [of level r] by simp
  next
    case False
    then have "length (tiles_at level r) = 1"
      using le by (cases "tiles_at level r") simp_all
    then show ?thesis
      using Cons False tiles_at_Nil_iff [of level r] by simp
  qed
qed

lemma count_keys:
  assumes "\<forall>r \<in> set stored. length (tiles_at level r) \<le> 1"
  shows "count_list (concat (map (\<lambda>r. map Key (tiles_at level r)) stored)) k =
         length (filter (\<lambda>r. \<exists>t \<in> set (Levels r). uint (Z t) = level \<and> Key t = k) stored)"
  using assms
proof (induction stored)
  case Nil
  then show ?case by simp
next
  case (Cons r stored)
  have le: "length (tiles_at level r) \<le> 1" using Cons.prems by simp
  have ex: "(\<exists>t \<in> set (Levels r). uint (Z t) = level \<and> Key t = k) \<longleftrightarrow>
      (\<exists>t \<in> set (tiles_at level r). Key t = k)"
    by (auto simp: tiles_at_def)
  show ?case
  proof (cases "tiles_at level r")
    case Nil
    then show ?thesis using Cons ex by simp
  next
    case (Cons t ts)
    then have "tiles_at level r = [t]" using le by simp
    then show ?thesis using Cons.IH Cons.prems ex by simp
  qed
qed

lemma set_keys:
  "set (concat (map (\<lambda>r. map Key (tiles_at level r)) stored)) =
     {Key t | r t. r \<in> set stored \<and> t \<in> set (Levels r) \<and> uint (Z t) = level}"
  by (auto simp: tiles_at_def)

lemma Aggregate_counts_general:
  assumes "\<forall>r \<in> set stored. distinct (map Z (Levels r))"
  shows "distinct (map RawStats_ID (Aggregate stored level))"
    and "set (map RawStats_ID (Aggregate stored level)) =
           {Key t | r t. r \<in> set stored \<and> t \<in> set (Levels r) \<and> uint (Z t) = level}"
    and "sum_list (map RawStats_Count (Aggregate stored level)) =
           int (length (filter (\<lambda>r. \<exists>t \<in> set (Levels r). uint (Z t) = level) stored))"
    and "\<forall>g \<in> set (Aggregate stored level). RawStats_Count g =
           int (length (filter (\<lambda>r. \<exists>t \<in> set (Levels r). uint (Z t) = level \<and> Key t = RawStats_ID g) stored))"
    and "\<forall>r \<in> set stored. length (filter (\<lambda>t. uint (Z t) = level) (Levels r)) \<le> 1"
proof -
  let ?keys = "concat (map (\<lambda>r. map Key (tiles_at level r)) stored)"
  have one: "\<forall>r \<in> set stored. length (tiles_at level r) \<le> 1"
  proof
    fix r assume "r \<in> set stored"
    then have "distinct (map Z (Levels r))" using assms by blast
    from distinct_zoom_tiles_at [OF this, of level]
    show "length (tiles_at level r) \<le> 1" by (simp only: tiles_at_def)
  qed
  then show "\<forall>r \<in> set stored. length (filter (\<lambda>t. uint (Z t) = level) (Levels r)) \<le> 1"
    by (simp add: tiles_at_def)
  have ids: "map RawStats_ID (Aggregate stored level) = remdups ?keys"
    by (simp add: Aggregate_keys Let_def comp_def)
  show "distinct (map RawStats_ID (Aggregate stored level))"
    by (simp only: ids distinct_remdups)
  show "set (map RawStats_ID (Aggregate stored level)) =
      {Key t | r t. r \<in> set stored \<and> t \<in> set (Levels r) \<and> uint (Z t) = level}"
    by (simp only: ids set_remdups set_keys)
  have "sum_list (map RawStats_Count (Aggregate stored level)) = int (length ?keys)"
    using sum_count_list_remdups [of ?keys] by (simp add: Aggregate_keys Let_def comp_def)
  then show "sum_list (map RawStats_Count (Aggregate stored level)) =
      int (length (filter (\<lambda>r. \<exists>t \<in> set (Levels r). uint (Z t) = level) stored))"
    using length_keys [OF one] by simp
  show "\<forall>g \<in> set (Aggregate stored level). RawStats_Count g =
      int (length (filter (\<lambda>r. \<exists>t \<in> set (Levels r). uint (Z t) = level \<and> Key t = RawStats_ID g) stored))"
    using count_keys [OF one] by (auto simp: Aggregate_keys Let_def)
qed

lemma SetLevels_distinct_zooms:
  assumes "SetLevels a r0 = Inr r"
  shows "distinct (map Z (Levels r))"
proof -
  have "map Z (Levels r) = map (\<lambda>z. word_of_int z :: uint32) [minZoom..maxZoom]"
    using assms by (auto simp: SetLevels_Inr_iff)
  moreover have "sorted_wrt (<) (map (\<lambda>z. word_of_int z :: uint32) [minZoom..maxZoom])"
    by (rule sorted_zooms) (simp_all add: minZoom_def maxZoom_def)
  ultimately show ?thesis
    by (simp add: strict_sorted_iff)
qed

text \<open>
  Claim C2. Over stored records that were indexed by \<open>SetLevels\<close>, the aggregation at a zoom
  yields one group for every distinct key that a record has at that zoom, and no other; the
  counts add up to the number of records with a level at that zoom; the count of a group is
  the number of records with that key at that zoom; and no record has more than one level
  at the zoom, so none is counted twice.
\<close>

theorem Aggregate_counts:
  assumes "\<forall>r \<in> set stored. \<exists>r0. SetLevels maptile_At r0 = Inr r"
  shows "distinct (map RawStats_ID (Aggregate stored level)) \<and>
     set (map RawStats_ID (Aggregate stored level)) =
       {Key t | r t. r \<in> set stored \<and> t \<in> set (Levels r) \<and> uint (Z t) = level} \<and>
     sum_list (map RawStats_Count (Aggregate stored level)) =
       int (length (filter (\<lambda>r. \<exists>t \<in> set (Levels r). uint (Z t) = level) stored)) \<and>
     (\<forall>g \<in> set (Aggregate stored level). RawStats_Count g =
       int (length (filter (\<lambda>r. \<exists>t \<in> set (Levels r). uint (Z t) = level \<and> Key t = RawStats_ID g) stored))) \<and>
     (\<forall>r \<in> set stored. length (filter (\<lambda>t. uint (Z t) = level) (Levels r)) \<le> 1)"
proof -
  have "\<forall>r \<in> set stored. distinct (map Z (Levels r))"
    using assms SetLevels_distinct_zooms by blast
  from Aggregate_counts_general [OF this] show ?thesis
    by blast
qed

lemma SetLevels_projr:
  "2 \<le> length (Coordinates (Location r)) \<Longrightarrow> SetLevels a r = Inr (projr (SetLevels a r))"
  by (simp add: SetLevels_closed)

lemma SetLevels_has_level:
  assumes "2 \<le> length (Coordinates (Location r))" "minZoom \<le> z" "z \<le> maxZoom"
  shows "\<exists>t \<in> set (Levels (projr (SetLevels a r))). uint (Z t) = z"
proof -
  let ?t = "level_Tile a (Coordinates (Location r) ! 0) (Coordinates (Location r) ! 1) z"
  have "Levels (projr (SetLevels a r)) =
      map (level_Tile a (Coordinates (Location r) ! 0) (Coordinates (Location r) ! 1))
        [minZoom..maxZoom]"
    using assms(1) by (simp add: SetLevels_closed)
  then have "?t \<in> set (Levels (projr (SetLevels a r)))"
    using assms(2,3) by simp
  moreover have "uint (Z ?t) = z"
    using assms(2,3) by (simp add: uint_zoom minZoom_def maxZoom_def)
  ultimately show ?thesis by blast
qed

text \<open>Three records at \<open>(-73.99, 40.73)\<close> and one at \<open>(0, 0)\<close>, indexed with a library that
  tells the two points apart: at zoom 12 the counts add up to four.\<close>

theorem Aggregate_counts_witness:
  "sum_list (map RawStats_Count (Aggregate
      (map (\<lambda>r. projr (SetLevels
              (\<lambda>p z. if fst p < 0 then maptile_New 1206 1539 z else maptile_New 2048 2048 z) r))
         [\<lparr>ID = [1], Location = \<lparr>Type = ''Point'', Coordinates = [- 73.99, 40.73 :: real]\<rparr>, Levels = []\<rparr>,
          \<lparr>ID = [2], Location = \<lparr>Type = ''Point'', Coordinates = [- 73.99, 40.73 :: real]\<rparr>, Levels = []\<rparr>,
          \<lparr>ID = [3], Location = \<lparr>Type = ''Point'', Coordinates = [- 73.99, 40.73 :: real]\<rparr>, Levels = []\<rparr>,
          \<lparr>ID = [4], Location = \<lparr>Type = ''Point'', Coordinates = [0, 0 :: real]\<rparr>, Levels = []\<rparr>])
      12)) = 4"
proof -
  let ?a = "\<lambda>(p :: real \<times> real) z. if fst p < 0 then maptile_New 1206 1539 z else maptile_New 2048 2048 z"
  let ?rs = "[\<lparr>ID = [1], Location = \<lparr>Type = ''Point'', Coordinates = [- 73.99, 40.73 :: real]\<rparr>, Levels = []\<rparr>,
          \<lparr>ID = [2], Location = \<lparr>Type = ''Point'', Coordinates = [- 73.99, 40.73 :: real]\<rparr>, Levels = []\<rparr>,
          \<lparr>ID = [3], Location = \<lparr>Type = ''Point'', Coordinates = [- 73.99, 40.73 :: real]\<rparr>, Levels = []\<rparr>,
          \<lparr>ID = [4], Location = \<lparr>Type = ''Point'', Coordinates = [0, 0 :: real]\<rparr>, Levels = []\<rparr>]"
  let ?f = "\<lambda>r. projr (SetLevels ?a r)"
  have two: "\<forall>r \<in> set ?rs. 2 \<le> length (Coordinates (Location r))"
    by simp
  have indexed: "\<forall>r \<in> set (map ?f ?rs). \<exists>r0. SetLevels ?a r0 = Inr r"
  proof
    fix r assume "r \<in> set (map ?f ?rs)"
    then obtain r0 where r0: "r0 \<in> set ?rs" "r = ?f r0"
      unfolding set_map by (rule imageE)
    with two have "2 \<le> length (Coordinates (Location r0))" by blast
    from SetLevels_projr [OF this, of ?a] r0(2) show "\<exists>r0. SetLevels ?a r0 = Inr r"
      by blast
  qed
  have lev: "\<forall>r \<in> set (map ?f ?rs). \<exists>t \<in> set (Levels r). uint (Z t) = 12"
  proof
    fix r assume "r \<in> set (map ?f ?rs)"
    then obtain r0 where r0: "r0 \<in> set ?rs" "r = ?f r0"
      unfolding set_map by (rule imageE)
    with two have "2 \<le> length (Coordinates (Location r0))" by blast
    from SetLevels_has_level [OF this, of 12 ?a] r0(2)
    show "\<exists>t \<in> set (Levels r). uint (Z t) = 12"
      by (simp add: minZoom_def maxZoom_def)
  qed
  have "filter (\<lambda>r. \<exists>t \<in> set (Levels r). uint (Z t) = 12) (map ?f ?rs) = map ?f ?rs"
    using lev by (rule filter_True)
  then have len: "length (filter (\<lambda>r. \<exists>t \<in> set (Levels r). uint (Z t) = 12) (map ?f ?rs)) = 4"
    by (simp only: length_map list.size)
  have "sum_list (map RawStats_Count (Aggregate (map ?f ?rs) 12)) =
      int (length (filter (\<lambda>r. \<exists>t \<in> set (Levels r). uint (Z t) = 12) (map ?f ?rs)))"
    using Aggregate_counts [OF indexed, of 12] by (rule conjunct1 [OF conjunct2 [OF conjunct2]])
  then show ?thesis
    by (simp only: len of_nat_numeral)
qed

end
